theory Spec2Isabelle
  imports Complex_Main "HOL-Library.Log_Nat"
begin

section \<open>Python values\<close>

text \<open>
  A Python \<open>str\<close> is a sequence of Unicode code points and \<open>len\<close> counts code
  points, so a string is a list of code points. \<open>ascii\<close> turns an ASCII literal into
  such a list.
\<close>

type_synonym ustr = "nat list"

definition ascii :: "string \<Rightarrow> ustr" where
  "ascii s = map of_char s"

text \<open>
  What \<open>json.load\<close> and \<open>json.loads\<close> return: \<open>None\<close>, a \<open>bool\<close>, an
  \<open>int\<close>, a \<open>str\<close>, a \<open>list\<close> or a \<open>dict\<close> with string keys. A dict is an
  association list in insertion order; \<open>map_of\<close> looks a key up. JSON numbers with a
  fraction or an exponent (Python floats) are left out: the credential store and the
  token endpoint carry integers (\<open>expiry_date\<close>, \<open>expires_in\<close>).
\<close>

datatype json =
    JNull
  | JBool bool
  | JInt int
  | JStr ustr
  | JList "json list"
  | JObj "(ustr \<times> json) list"

text \<open>
  The exception classes that occur. \<open>TimeoutException\<close> and \<open>HTTPStatusError\<close> are
  httpx's, \<open>HTTPError\<close> and \<open>URLError\<close> urllib's; \<open>OtherException\<close> is any other
  subclass of \<open>Exception\<close> that a library call raises.
\<close>

datatype py_exc =
    AttributeError
  | TypeError
  | KeyError
  | IndexError
  | ValueError
  | JSONDecodeError
  | UnicodeDecodeError
  | OverflowError
  | ZeroDivisionError
  | FileNotFoundError
  | OSError
  | TimeoutException
  | HTTPStatusError int
  | OtherException

text \<open>\<open>isinstance(e, ValueError)\<close>: the class itself and its two subclasses.\<close>

fun is_ValueError :: "py_exc \<Rightarrow> bool" where
  "is_ValueError ValueError = True"
| "is_ValueError JSONDecodeError = True"
| "is_ValueError UnicodeDecodeError = True"
| "is_ValueError _ = False"

text \<open>Truth value testing (\<open>if x\<close>, \<open>not x\<close>).\<close>

fun truthy :: "json \<Rightarrow> bool" where
  "truthy JNull = False"
| "truthy (JBool b) = b"
| "truthy (JInt n) = (n \<noteq> 0)"
| "truthy (JStr s) = (s \<noteq> [])"
| "truthy (JList xs) = (xs \<noteq> [])"
| "truthy (JObj kvs) = (kvs \<noteq> [])"

text \<open>\<open>x.get(key, default)\<close>: only a dict has the method.\<close>

fun py_get :: "json \<Rightarrow> ustr \<Rightarrow> json \<Rightarrow> py_exc + json" where
  "py_get (JObj kvs) k d = Inr (case map_of kvs k of None \<Rightarrow> d | Some v \<Rightarrow> v)"
| "py_get _ k d = Inl AttributeError"

text \<open>
  \<open>x[key]\<close> with a string key: a dict raises \<open>KeyError\<close> for a missing key; a list and
  a string want an integer index, and the other values are not subscriptable.
\<close>

fun py_getitem :: "json \<Rightarrow> ustr \<Rightarrow> py_exc + json" where
  "py_getitem (JObj kvs) k = (case map_of kvs k of None \<Rightarrow> Inl KeyError | Some v \<Rightarrow> Inr v)"
| "py_getitem _ k = Inl TypeError"

text \<open>
  \<open>x[0]\<close>: the first element of a list or the first character of a string,
  \<open>IndexError\<close> when empty; a dict parsed from JSON has string keys only, so the key
  \<open>0\<close> is missing.
\<close>

fun py_getitem0 :: "json \<Rightarrow> py_exc + json" where
  "py_getitem0 (JList []) = Inl IndexError"
| "py_getitem0 (JList (x # xs)) = Inr x"
| "py_getitem0 (JStr []) = Inl IndexError"
| "py_getitem0 (JStr (c # cs)) = Inr (JStr [c])"
| "py_getitem0 (JObj kvs) = Inl KeyError"
| "py_getitem0 _ = Inl TypeError"

text \<open>Sequencing of calls that may raise.\<close>

definition and_then :: "py_exc + 'a \<Rightarrow> ('a \<Rightarrow> py_exc + 'b) \<Rightarrow> py_exc + 'b" where
  "and_then r f = (case r of Inl e \<Rightarrow> Inl e | Inr v \<Rightarrow> f v)"

text \<open>\<open>str(n)\<close> for an int, as an f-string renders it: decimal digits, a minus sign first.\<close>

fun digits :: "nat \<Rightarrow> ustr" where
  "digits n = (if n < 10 then [48 + n] else digits (n div 10) @ [48 + n mod 10])"

definition py_str_int :: "int \<Rightarrow> ustr" where
  "py_str_int n = (if n < 0 then 45 # digits (nat (- n)) else digits (nat n))"

text \<open>\<open>s.startswith(p)\<close> and the substring test \<open>p in s\<close>.\<close>

definition startswith :: "ustr \<Rightarrow> ustr \<Rightarrow> bool" where
  "startswith s p = (take (length p) s = p)"

fun py_in :: "ustr \<Rightarrow> ustr \<Rightarrow> bool" where
  "py_in p [] = (p = [])"
| "py_in p (c # cs) = (startswith (c # cs) p \<or> py_in p cs)"

text \<open>
  The credential file as a reader finds it: absent, present but not openable, not
  JSON, or holding a JSON value.
\<close>

datatype store_file = Missing | Unreadable | Unparsable | Holds json


section \<open>The vision relay (bot.py)\<close>

text \<open>
  The messages of the relay, as code points. In English: "Processing...", the header
  "Text:" followed by two newlines, "Text (split into parts because of its length):",
  "Timed out waiting for the server's reply. Try once more later.", "Authorization
  error. Check the API token.", "Request limit exceeded. Try later.", "The server is
  temporarily unavailable. Try later.", "Server error (code N). Try later.", "Could
  not process the server's reply. Try once more.", "An unexpected error occurred. Try
  later." and "Please send an image (JPEG, PNG, WebP, GIF).".
\<close>

definition msg_processing :: ustr where
  "msg_processing = [9203, 32, 1054, 1073, 1088, 1072, 1073, 1072, 1090, 1099, 1074, 1072,
     1102, 46, 46, 46]"

definition reply_header :: ustr where
  "reply_header = [128221, 32, 42, 1058, 1077, 1082, 1089, 1090, 58, 42, 10, 10]"

definition msg_split_notice :: ustr where
  "msg_split_notice = [128221, 32, 42, 1058, 1077, 1082, 1089, 1090, 32, 40, 1088, 1072,
     1079, 1073, 1080, 1090, 32, 1085, 1072, 32, 1095, 1072, 1089, 1090, 1080, 32, 1080,
     1079, 45, 1079, 1072, 32, 1076, 1083, 1080, 1085, 1099, 41, 58, 42]"

definition msg_timeout :: ustr where
  "msg_timeout = [9201, 32, 1055, 1088, 1077, 1074, 1099, 1096, 1077, 1085, 1086, 32, 1074,
     1088, 1077, 1084, 1103, 32, 1086, 1078, 1080, 1076, 1072, 1085, 1080, 1103, 32, 1086,
     1090, 1074, 1077, 1090, 1072, 32, 1086, 1090, 32, 1089, 1077, 1088, 1074, 1077, 1088,
     1072, 46, 32, 1055, 1086, 1087, 1088, 1086, 1073, 1091, 1081, 1090, 1077, 32, 1077,
     1097, 1105, 32, 1088, 1072, 1079, 32, 1087, 1086, 1079, 1078, 1077, 46]"

definition msg_auth :: ustr where
  "msg_auth = [128273, 32, 1054, 1096, 1080, 1073, 1082, 1072, 32, 1072, 1074, 1090, 1086,
     1088, 1080, 1079, 1072, 1094, 1080, 1080, 46, 32, 1055, 1088, 1086, 1074, 1077, 1088,
     1100, 1090, 1077, 32, 1090, 1086, 1082, 1077, 1085, 32, 65, 80, 73, 46]"

definition msg_rate_limit :: ustr where
  "msg_rate_limit = [128678, 32, 1055, 1088, 1077, 1074, 1099, 1096, 1077, 1085, 32, 1083,
     1080, 1084, 1080, 1090, 32, 1079, 1072, 1087, 1088, 1086, 1089, 1086, 1074, 46, 32,
     1055, 1086, 1087, 1088, 1086, 1073, 1091, 1081, 1090, 1077, 32, 1087, 1086, 1079,
     1078, 1077, 46]"

definition msg_unavailable :: ustr where
  "msg_unavailable = [128295, 32, 1057, 1077, 1088, 1074, 1077, 1088, 32, 1074, 1088, 1077,
     1084, 1077, 1085, 1085, 1086, 32, 1085, 1077, 1076, 1086, 1089, 1090, 1091, 1087,
     1077, 1085, 46, 32, 1055, 1086, 1087, 1088, 1086, 1073, 1091, 1081, 1090, 1077, 32,
     1087, 1086, 1079, 1078, 1077, 46]"

definition msg_generic_prefix :: ustr where
  "msg_generic_prefix = [10060, 32, 1054, 1096, 1080, 1073, 1082, 1072, 32, 1089, 1077,
     1088, 1074, 1077, 1088, 1072, 32, 40, 1082, 1086, 1076, 32]"

definition msg_generic_suffix :: ustr where
  "msg_generic_suffix = [41, 46, 32, 1055, 1086, 1087, 1088, 1086, 1073, 1091, 1081, 1090,
     1077, 32, 1087, 1086, 1079, 1078, 1077, 46]"

definition msg_parse :: ustr where
  "msg_parse = [10060, 32, 1053, 1077, 32, 1091, 1076, 1072, 1083, 1086, 1089, 1100, 32,
     1086, 1073, 1088, 1072, 1073, 1086, 1090, 1072, 1090, 1100, 32, 1086, 1090, 1074,
     1077, 1090, 32, 1086, 1090, 32, 1089, 1077, 1088, 1074, 1077, 1088, 1072, 46, 32,
     1055, 1086, 1087, 1088, 1086, 1073, 1091, 1081, 1090, 1077, 32, 1077, 1097, 1105, 32,
     1088, 1072, 1079, 46]"

definition msg_unexpected :: ustr where
  "msg_unexpected = [10060, 32, 1055, 1088, 1086, 1080, 1079, 1086, 1096, 1083, 1072, 32,
     1085, 1077, 1087, 1088, 1077, 1076, 1074, 1080, 1076, 1077, 1085, 1085, 1072, 1103,
     32, 1086, 1096, 1080, 1073, 1082, 1072, 46, 32, 1055, 1086, 1087, 1088, 1086, 1073,
     1091, 1081, 1090, 1077, 32, 1087, 1086, 1079, 1078, 1077, 46]"

definition msg_not_image :: ustr where
  "msg_not_image = [9888, 65039, 32, 1055, 1086, 1078, 1072, 1083, 1091, 1081, 1089, 1090,
     1072, 44, 32, 1086, 1090, 1087, 1088, 1072, 1074, 1100, 1090, 1077, 32, 1080, 1079,
     1086, 1073, 1088, 1072, 1078, 1077, 1085, 1080, 1077, 32, 40, 74, 80, 69, 71, 44, 32,
     80, 78, 71, 44, 32, 87, 101, 98, 80, 44, 32, 71, 73, 70, 41, 46]"

text \<open>
  What the relay does to the outside, in order: replies to the user's message
  (\<open>update.message.reply_text\<close>), edits of the placeholder message
  (\<open>processing_msg.edit_text\<close>), the download of the file from the chat transport, the
  read of the credential file, and the POST to the vision endpoint with the token and
  the base64 image. Calls to the chat transport are taken to succeed; log lines are
  not recorded.
\<close>

datatype parse_mode = Plain | Markdown

datatype action =
    ReplyText ustr parse_mode
  | EditText ustr parse_mode
  | Download
  | ReadStore
  | VisionPost json ustr
  | NonTextContent json

text \<open>
  What the outside answers during one request: the result of \<open>download_and_encode\<close>
  (the base64 string, or the exception the transport raised), the credential file, and
  the vision endpoint's answer: an exception raised by \<open>client.post\<close>, or a response
  with its status code and what \<open>response.json()\<close> gives (\<open>None\<close> when the body is
  not JSON).
\<close>

datatype api_outcome = ApiRaises py_exc | ApiResponse int "json option"

record relay_env =
  download_result :: "py_exc + ustr"
  creds_file :: store_file
  api_reply :: api_outcome

text \<open>
  \<open>get_qwen_token\<close>: the three \<open>except\<close> clauses log and re-raise; an
  \<open>AttributeError\<close> of \<open>creds.get\<close> passes through them.
\<close>

definition get_qwen_token :: "store_file \<Rightarrow> py_exc + json" where
  "get_qwen_token f =
     (case f of
        Missing \<Rightarrow> Inl FileNotFoundError
      | Unreadable \<Rightarrow> Inl OSError
      | Unparsable \<Rightarrow> Inl JSONDecodeError
      | Holds creds \<Rightarrow>
          and_then (py_get creds (ascii ''access_token'') (JStr []))
            (\<lambda>token. if truthy token then Inr token else Inl ValueError))"

text \<open>
  Lines 158 to 164 of \<open>call_vision_api\<close>: \<open>data["choices"][0]["message"]["content"]\<close>,
  where a \<open>KeyError\<close> or an \<open>IndexError\<close> becomes a \<open>ValueError\<close> and any other
  exception passes.
\<close>

definition extract_text :: "json \<Rightarrow> py_exc + json" where
  "extract_text data =
     (case and_then (and_then (and_then (py_getitem data (ascii ''choices'')) py_getitem0)
              (\<lambda>c. py_getitem c (ascii ''message'')))
              (\<lambda>m. py_getitem m (ascii ''content'')) of
        Inl e \<Rightarrow> if e = KeyError \<or> e = IndexError then Inl ValueError else Inl e
      | Inr text \<Rightarrow> Inr text)"

text \<open>
  \<open>call_vision_api\<close>: the token is read while the headers are built, before the
  request; \<open>raise_for_status\<close> raises for every status outside 200 to 299.
\<close>

definition call_vision_api :: "relay_env \<Rightarrow> ustr \<Rightarrow> (py_exc + json) \<times> action list" where
  "call_vision_api env image_base64 =
     (case get_qwen_token (creds_file env) of
        Inl e \<Rightarrow> (Inl e, [ReadStore])
      | Inr token \<Rightarrow>
          (case api_reply env of
             ApiRaises e \<Rightarrow> (Inl e, [ReadStore, VisionPost token image_base64])
           | ApiResponse status_code body \<Rightarrow>
               (if status_code < 200 \<or> 299 < status_code
                  then Inl (HTTPStatusError status_code)
                else (case body of
                        None \<Rightarrow> Inl JSONDecodeError
                      | Some data \<Rightarrow> extract_text data),
                [ReadStore, VisionPost token image_base64])))"

text \<open>
  The loop \<open>for i in range(0, len(result_text), 4000)\<close> with the slice
  \<open>result_text[i : i + 4000]\<close>, from index \<open>i\<close> on.
\<close>

function send_chunks :: "ustr \<Rightarrow> nat \<Rightarrow> action list" where
  "send_chunks result_text i =
     (if i < length result_text
      then ReplyText (take 4000 (drop i result_text)) Plain # send_chunks result_text (i + 4000)
      else [])"
  by pat_completeness auto
termination
  by (relation "measure (\<lambda>(result_text, i). length result_text - i)") auto

text \<open>Lines 268 to 281 of \<open>_process_image\<close>: the reply for a recognized text.\<close>

definition send_result :: "ustr \<Rightarrow> action list" where
  "send_result result_text =
     (let reply = reply_header @ result_text
      in if length reply \<le> 4096 then [EditText reply Markdown]
         else EditText msg_split_notice Markdown # send_chunks result_text 0)"

text \<open>Lines 294 to 301: the message for an HTTP status error.\<close>

definition status_error_msg :: "int \<Rightarrow> ustr" where
  "status_error_msg status_code =
     (if status_code = 401 then msg_auth
      else if status_code = 429 then msg_rate_limit
      else if status_code \<ge> 500 then msg_unavailable
      else msg_generic_prefix @ py_str_int status_code @ msg_generic_suffix)"

text \<open>The \<open>except\<close> clauses of \<open>_process_image\<close>, in their order.\<close>

fun error_msg :: "py_exc \<Rightarrow> ustr" where
  "error_msg TimeoutException = msg_timeout"
| "error_msg (HTTPStatusError status_code) = status_error_msg status_code"
| "error_msg e = (if is_ValueError e then msg_parse else msg_unexpected)"

text \<open>
  \<open>_process_image\<close>. A content that is not a string is outside the contract of the
  vision endpoint; the code would render it with \<open>str()\<close>, and the model ends such a
  run with \<open>NonTextContent\<close>.
\<close>

definition process_image :: "relay_env \<Rightarrow> action list" where
  "process_image env =
     ReplyText msg_processing Plain # Download #
     (case download_result env of
        Inl e \<Rightarrow> [EditText (error_msg e) Plain]
      | Inr image_b64 \<Rightarrow>
          (case call_vision_api env image_b64 of
             (Inl e, acts) \<Rightarrow> acts @ [EditText (error_msg e) Plain]
           | (Inr (JStr result_text), acts) \<Rightarrow> acts @ send_result result_text
           | (Inr content, acts) \<Rightarrow> acts @ [NonTextContent content]))"

text \<open>\<open>handle_document\<close>, with the document's \<open>mime_type\<close>.\<close>

definition handle_document :: "ustr option \<Rightarrow> relay_env \<Rightarrow> action list" where
  "handle_document mime env =
     (if (case mime of None \<Rightarrow> True
          | Some m \<Rightarrow> m = [] \<or> \<not> startswith m (ascii ''image/''))
      then [ReplyText msg_not_image Plain]
      else process_image env)"


section \<open>The token refresher (refresh\_qwen\_token.py)\<close>

text \<open>
  \<open>a / b\<close> on ints is true division: the quotient rounded to the nearest double,
  ties to even, \<open>ZeroDivisionError\<close> for a zero divisor and \<open>OverflowError\<close> when the
  rounded quotient is too large for a double. A double is a rational here.
  \<open>nearest_double\<close> rounds to a multiple of the unit in the last place: 53 significant
  bits with the binary exponent \<open>ilog2\<close> of the value, and the spacing of the
  subnormals below \<open>2^-1022\<close>; the largest double is below \<open>2^1024\<close>.
\<close>

definition round_half_even :: "rat \<Rightarrow> int" where
  "round_half_even x =
     (let f = \<lfloor>x\<rfloor>; d = x - of_int f
      in if d < 1 / 2 then f else if 1 / 2 < d then f + 1 else if even f then f else f + 1)"

definition ilog2 :: "rat \<Rightarrow> int" where
  "ilog2 x =
     (let k = bitlen (fst (quotient_of x)) - bitlen (snd (quotient_of x))
      in if power_int 2 k \<le> x then k else k - 1)"

definition nearest_double :: "rat \<Rightarrow> rat" where
  "nearest_double x =
     (if x = 0 then 0
      else let ulp = power_int 2 (max (ilog2 \<bar>x\<bar>) (- 1022) - 52)
           in sgn x * of_int (round_half_even (\<bar>x\<bar> / ulp)) * ulp)"

definition py_truediv :: "int \<Rightarrow> int \<Rightarrow> py_exc + rat" where
  "py_truediv a b =
     (if b = 0 then Inl ZeroDivisionError
      else let q = nearest_double (of_int a / of_int b)
           in if 2 ^ 1024 \<le> \<bar>q\<bar> then Inl OverflowError else Inr q)"

text \<open>An operand of int arithmetic: an int or a bool (\<open>True\<close> is 1), else \<open>TypeError\<close>.\<close>

fun py_int :: "json \<Rightarrow> py_exc + int" where
  "py_int (JInt n) = Inr n"
| "py_int (JBool b) = Inr (if b then 1 else 0)"
| "py_int _ = Inl TypeError"

text \<open>
  \<open>str.isspace\<close>, the characters that \<open>strip()\<close> removes; \<open>raw.strip()\<close> is empty when
  every character of \<open>raw\<close> is one of them.
\<close>

definition py_isspace :: "nat \<Rightarrow> bool" where
  "py_isspace c =
     ((9 \<le> c \<and> c \<le> 13) \<or> (28 \<le> c \<and> c \<le> 32) \<or> c = 133 \<or> c = 160 \<or> c = 5760
      \<or> (8192 \<le> c \<and> c \<le> 8202) \<or> c = 8232 \<or> c = 8233 \<or> c = 8239 \<or> c = 8287
      \<or> c = 12288)"

definition strip_is_empty :: "ustr \<Rightarrow> bool" where
  "strip_is_empty raw = list_all py_isspace raw"

text \<open>
  The lines that \<open>log\<close> prints, by kind and with the values they show: the start
  banner; the file is missing; \<open>expiry_date\<close> is missing; the token expires in so many
  seconds and is refreshed; the token is valid for so many seconds still; the
  \<open>refresh_token\<close> is missing; the request is being sent; the API returned HTML
  instead of JSON (probably a WAF block), with the content type and the length; the
  API returned an empty response, with the hint that the refresh token is probably
  invalid; an HTTP error with code and body, with the hint to authorize again for 400
  and 401; a network error; a JSON error, with the first 300 characters of the
  response; an unexpected API response; the file was updated; the token was
  refreshed, with the hours it is valid.
\<close>

datatype log_msg =
    LogStart
  | LogFileNotFound
  | LogExpiryMissing
  | LogExpiresSoon rat
  | LogStillValid rat
  | LogNoRefreshToken
  | LogSendingRequest
  | LogHtmlInsteadOfJson
  | LogContentType ustr nat
  | LogEmptyResponse
  | LogRefreshTokenInvalid
  | LogHttpError int ustr
  | LogReauthorize
  | LogNetworkError
  | LogJsonError
  | LogResponseExcerpt ustr
  | LogUnexpectedResponse json
  | LogFileUpdated
  | LogTokenRefreshed rat

text \<open>
  What the refresher does to the outside, in order: a printed line, the POST to the
  token endpoint with the refresh token it sends, a call of \<open>json.loads\<close> on a response
  body, the rewrite of the credential file and the \<open>chmod\<close> of it.
\<close>

datatype event =
    Log log_msg
  | HttpPost json
  | JsonLoads ustr
  | WriteStore json
  | Chmod nat

text \<open>
  The state: the credential file, its permission bits, and the events so far. Writing
  the file and \<open>chmod\<close> are taken to succeed.
\<close>

record world =
  store :: store_file
  perms :: nat
  trace :: "event list"

definition emit :: "event \<Rightarrow> world \<Rightarrow> world" where
  "emit e w = w\<lparr>trace := trace w @ [e]\<rparr>"

definition log :: "log_msg \<Rightarrow> world \<Rightarrow> world" where
  "log msg w = emit (Log msg) w"

text \<open>The events of a run from \<open>w\<close> to \<open>w'\<close>.\<close>

definition emitted :: "world \<Rightarrow> world \<Rightarrow> event list" where
  "emitted w w' = drop (length (trace w)) (trace w')"

text \<open>
  How a call ends: it returns a value, \<open>sys.exit(n)\<close> ends the process, or an
  exception that nothing catches ends it with a traceback and exit status 1.
\<close>

datatype 'a res = Ok 'a | SysExit nat | Raise py_exc

fun exit_status :: "'a res \<Rightarrow> nat" where
  "exit_status (Ok v) = 0"
| "exit_status (SysExit n) = n"
| "exit_status (Raise e) = 1"

text \<open>
  What the outside answers during one run: \<open>int(time.time() * 1000)\<close> where
  \<open>token_needs_refresh\<close> reads the clock (line 64) and where \<open>main\<close> does (line 163),
  milliseconds since the epoch on a clock that is not set before it; the outcome of
  \<open>urlopen\<close> with \<open>read\<close> and \<open>decode\<close>; and \<open>json.loads\<close>, with \<open>None\<close> for a
  \<open>JSONDecodeError\<close>. The outcome of the request is an \<open>HTTPError\<close>
  with status code and body, a \<open>URLError\<close>, a response with its \<open>Content-Type\<close>
  header (empty when absent) and its decoded body, or any other exception (a read
  timeout, a body that is not UTF-8), which none of the \<open>except\<close> clauses catches.
\<close>

datatype http_outcome =
    HTTPError int ustr
  | URLError
  | Response ustr ustr
  | OtherFailure

record refresh_env =
  now_check :: nat
  now_build :: nat
  http_reply :: http_outcome
  json_loads :: "ustr \<Rightarrow> json option"

definition REFRESH_THRESHOLD_SEC :: rat where
  "REFRESH_THRESHOLD_SEC = 7200"

text \<open>The mode \<open>0o600\<close>: read and write for the owner.\<close>

definition mode_0o600 :: nat where
  "mode_0o600 = 6 * 8 * 8"

definition load_creds :: "world \<Rightarrow> json res \<times> world" where
  "load_creds w =
     (case store w of
        Missing \<Rightarrow> (SysExit 1, log LogFileNotFound w)
      | Unreadable \<Rightarrow> (Raise OSError, w)
      | Unparsable \<Rightarrow> (Raise JSONDecodeError, w)
      | Holds creds \<Rightarrow> (Ok creds, w))"

definition save_creds :: "json \<Rightarrow> world \<Rightarrow> world" where
  "save_creds creds w =
     log LogFileUpdated
       (emit (Chmod mode_0o600)
          (emit (WriteStore creds) (w\<lparr>store := Holds creds\<rparr>)
             \<lparr>perms := mode_0o600\<rparr>))"

definition token_needs_refresh :: "refresh_env \<Rightarrow> json \<Rightarrow> world \<Rightarrow> bool res \<times> world" where
  "token_needs_refresh env creds w =
     (case py_get creds (ascii ''expiry_date'') JNull of
        Inl e \<Rightarrow> (Raise e, w)
      | Inr expiry_date \<Rightarrow>
          if \<not> truthy expiry_date then (Ok True, log LogExpiryMissing w)
          else
            (case and_then (py_int expiry_date) (\<lambda>n. py_truediv (n - int (now_check env)) 1000) of
               Inl e \<Rightarrow> (Raise e, w)
             | Inr remaining_sec \<Rightarrow>
                 if remaining_sec \<le> REFRESH_THRESHOLD_SEC
                 then (Ok True, log (LogExpiresSoon remaining_sec) w)
                 else (Ok False, log (LogStillValid remaining_sec) w)))"

definition refresh_token :: "refresh_env \<Rightarrow> json \<Rightarrow> world \<Rightarrow> json res \<times> world" where
  "refresh_token env refresh_token_value w0 =
     (let w = emit (HttpPost refresh_token_value) w0 in
      case http_reply env of
        HTTPError code error_body \<Rightarrow>
          (SysExit 1,
           (if code = 400 \<or> code = 401 then log LogReauthorize else id)
             (log (LogHttpError code error_body) w))
      | URLError \<Rightarrow> (SysExit 1, log LogNetworkError w)
      | OtherFailure \<Rightarrow> (Raise OtherException, w)
      | Response content_type raw \<Rightarrow>
          if py_in (ascii ''text/html'') content_type
          then (SysExit 1,
                log (LogContentType content_type (length raw)) (log LogHtmlInsteadOfJson w))
          else if strip_is_empty raw
          then (SysExit 1, log LogRefreshTokenInvalid (log LogEmptyResponse w))
          else
            (case json_loads env raw of
               None \<Rightarrow>
                 (SysExit 1,
                  log (LogResponseExcerpt (take 300 raw)) (log LogJsonError (emit (JsonLoads raw) w)))
             | Some body \<Rightarrow>
                 (case py_get body (ascii ''status'') JNull of
                    Inl e \<Rightarrow> (Raise e, emit (JsonLoads raw) w)
                  | Inr status \<Rightarrow>
                      if status \<noteq> JStr (ascii ''success'')
                      then (SysExit 1, log (LogUnexpectedResponse body) (emit (JsonLoads raw) w))
                      else (Ok body, emit (JsonLoads raw) w))))"

text \<open>
  Lines 157 to 164 of \<open>main\<close>: the new credential, its entries evaluated in order.
  \<open>result["expires_in"] * 1000\<close> added to an int is an int for an int or a bool and a
  \<open>TypeError\<close> for every other value.
\<close>

definition build_new_creds :: "int \<Rightarrow> json \<Rightarrow> py_exc + json" where
  "build_new_creds now_ms result =
     and_then (py_getitem result (ascii ''access_token'')) (\<lambda>access_token.
     and_then (py_get result (ascii ''token_type'') (JStr (ascii ''Bearer''))) (\<lambda>token_type.
     and_then (py_getitem result (ascii ''refresh_token'')) (\<lambda>refresh_token.
     and_then (py_get result (ascii ''resource_url'') (JStr (ascii ''portal.qwen.ai'')))
       (\<lambda>resource_url.
     and_then (py_getitem result (ascii ''expires_in'')) (\<lambda>expires_in.
     and_then (py_int expires_in) (\<lambda>n.
       Inr (JObj [(ascii ''access_token'', access_token),
                  (ascii ''token_type'', token_type),
                  (ascii ''refresh_token'', refresh_token),
                  (ascii ''resource_url'', resource_url),
                  (ascii ''expiry_date'', JInt (now_ms + n * 1000))])))))))"

text \<open>
  Lines 147 to 167 of \<open>main\<close>, reached when the token needs a refresh. The last log
  line divides \<open>expires_in\<close> by 3600 after the file is saved.
\<close>

definition refresh_and_save :: "refresh_env \<Rightarrow> json \<Rightarrow> world \<Rightarrow> unit res \<times> world" where
  "refresh_and_save env creds w =
     (case py_get creds (ascii ''refresh_token'') JNull of
        Inl e \<Rightarrow> (Raise e, w)
      | Inr rt \<Rightarrow>
          if \<not> truthy rt then (SysExit 1, log LogNoRefreshToken w)
          else
            (case refresh_token env rt (log LogSendingRequest w) of
               (SysExit n, w1) \<Rightarrow> (SysExit n, w1)
             | (Raise e, w1) \<Rightarrow> (Raise e, w1)
             | (Ok result, w1) \<Rightarrow>
                 (case build_new_creds (int (now_build env)) result of
                    Inl e \<Rightarrow> (Raise e, w1)
                  | Inr new_creds \<Rightarrow>
                      (case and_then (and_then (py_getitem result (ascii ''expires_in'')) py_int)
                              (\<lambda>n. py_truediv n 3600) of
                         Inl e \<Rightarrow> (Raise e, save_creds new_creds w1)
                       | Inr hours \<Rightarrow>
                           (Ok (), log (LogTokenRefreshed hours) (save_creds new_creds w1))))))"

definition main :: "refresh_env \<Rightarrow> world \<Rightarrow> unit res \<times> world" where
  "main env w =
     (case load_creds (log LogStart w) of
        (SysExit n, w1) \<Rightarrow> (SysExit n, w1)
      | (Raise e, w1) \<Rightarrow> (Raise e, w1)
      | (Ok creds, w1) \<Rightarrow>
          (case token_needs_refresh env creds w1 of
             (SysExit n, w2) \<Rightarrow> (SysExit n, w2)
           | (Raise e, w2) \<Rightarrow> (Raise e, w2)
           | (Ok False, w2) \<Rightarrow> (Ok (), w2)
           | (Ok True, w2) \<Rightarrow> refresh_and_save env creds w2))"


section \<open>Example inputs\<close>

text \<open>
  A response body of the token endpoint and the dict \<open>json.loads\<close> returns for it; a
  credential file as the command-line client leaves it, with a \<open>scope\<close> entry, mode
  \<open>0o644\<close> and a given \<open>expiry_date\<close>; and a run at the clock reading
  1700000000000 ms.
\<close>

definition example_raw :: ustr where
  "example_raw = ascii ''{\"status\": \"success\", \"access_token\": \"a1\", \"refresh_token\": \"r1\", \"expires_in\": 21600, \"scope\": \"openid\"}''"

definition example_body :: json where
  "example_body = JObj [(ascii ''status'', JStr (ascii ''success'')),
     (ascii ''access_token'', JStr (ascii ''a1'')),
     (ascii ''refresh_token'', JStr (ascii ''r1'')),
     (ascii ''expires_in'', JInt 21600),
     (ascii ''scope'', JStr (ascii ''openid''))]"

definition example_loads :: "ustr \<Rightarrow> json option" where
  "example_loads raw = (if raw = example_raw then Some example_body else None)"

definition example_creds :: "json \<Rightarrow> json" where
  "example_creds expiry_date = JObj [(ascii ''access_token'', JStr (ascii ''a0'')),
     (ascii ''token_type'', JStr (ascii ''Bearer'')),
     (ascii ''refresh_token'', JStr (ascii ''r0'')),
     (ascii ''resource_url'', JStr (ascii ''portal.qwen.ai'')),
     (ascii ''expiry_date'', expiry_date),
     (ascii ''scope'', JStr (ascii ''openid''))]"

definition example_world :: "json \<Rightarrow> world" where
  "example_world expiry_date =
     \<lparr>store = Holds (example_creds expiry_date), perms = 6 * 8 * 8 + 4 * 8 + 4, trace = []\<rparr>"

definition example_env :: "http_outcome \<Rightarrow> refresh_env" where
  "example_env reply =
     \<lparr>now_check = 1700000000000, now_build = 1700000000250, http_reply = reply,
      json_loads = example_loads\<rparr>"


section \<open>Properties of the relay\<close>

declare send_chunks.simps [simp del]
declare digits.simps [simp del]

lemma ascii_eq_iff [simp]: "ascii s = ascii t \<longleftrightarrow> s = t"
proof -
  have "inj (of_char :: char \<Rightarrow> nat)"
    by (rule injI) simp
  then show ?thesis
    unfolding ascii_def by (simp add: inj_map_eq_map)
qed

lemma send_chunks_concat:
  "\<exists>chunks. send_chunks s i = map (\<lambda>c. ReplyText c Plain) chunks
      \<and> concat chunks = drop i s
      \<and> (\<forall>c\<in>set chunks. c \<noteq> [] \<and> length c \<le> 4000)"
proof (induction s i rule: send_chunks.induct)
  case (1 s i)
  show ?case
  proof (cases "i < length s")
    case False
    then show ?thesis
      by (simp add: send_chunks.simps [of s i])
  next
    case True
    from "1" [OF True] obtain rest where
      rest: "send_chunks s (i + 4000) = map (\<lambda>c. ReplyText c Plain) rest"
        "concat rest = drop (i + 4000) s"
        "\<forall>c\<in>set rest. c \<noteq> [] \<and> length c \<le> 4000"
      by blast
    let ?c = "take 4000 (drop i s)"
    have "?c @ drop (i + 4000) s = ?c @ drop 4000 (drop i s)"
      by (simp add: add.commute)
    also have "\<dots> = drop i s"
      by (rule append_take_drop_id)
    finally have cat: "concat (?c # rest) = drop i s"
      using rest(2) by simp
    have ne: "?c \<noteq> []" using True by simp
    have "send_chunks s i = map (\<lambda>c. ReplyText c Plain) (?c # rest)"
      using True rest(1) by (simp add: send_chunks.simps [of s i])
    with cat ne rest(3) show ?thesis
      by (intro exI [of _ "?c # rest"]) simp
  qed
qed


lemma ascii_Nil_iff [simp]: "ascii s = [] \<longleftrightarrow> s = []"
  by (simp add: ascii_def)

lemma startswith_Nil [simp]: "startswith [] p \<longleftrightarrow> p = []"
  by (auto simp: startswith_def)

lemma process_image_text:
  assumes "download_result env = Inr image_b64"
    and "get_qwen_token (creds_file env) = Inr token"
    and "api_reply env = ApiResponse status_code (Some data)"
    and "200 \<le> status_code" and "status_code \<le> 299"
    and "extract_text data = Inr (JStr result_text)"
  shows "process_image env =
           [ReplyText msg_processing Plain, Download, ReadStore, VisionPost token image_b64]
           @ send_result result_text"
  using assms by (simp add: process_image_def call_vision_api_def)

text \<open>
  Claim C2. For a recognized text \<open>result_text\<close>: when the header followed by the text
  has at most 4096 characters, \<open>_process_image\<close> edits the placeholder once, to the full
  reply; otherwise it edits the placeholder to the notice and sends the text as
  consecutive non-empty slices of at most 4000 characters, in order, whose
  concatenation is \<open>result_text\<close>.
\<close>

theorem process_image_reply_or_chunks:
  assumes "download_result env = Inr image_b64"
    and "get_qwen_token (creds_file env) = Inr token"
    and "api_reply env = ApiResponse status_code (Some data)"
    and "200 \<le> status_code" and "status_code \<le> 299"
    and "extract_text data = Inr (JStr result_text)"
  shows "(length (reply_header @ result_text) \<le> 4096 \<longrightarrow>
            process_image env =
              [ReplyText msg_processing Plain, Download, ReadStore, VisionPost token image_b64,
               EditText (reply_header @ result_text) Markdown])
       \<and> (4096 < length (reply_header @ result_text) \<longrightarrow>
            (\<exists>chunks.
               process_image env =
                 [ReplyText msg_processing Plain, Download, ReadStore,
                  VisionPost token image_b64, EditText msg_split_notice Markdown]
                 @ map (\<lambda>c. ReplyText c Plain) chunks
             \<and> concat chunks = result_text
             \<and> (\<forall>c\<in>set chunks. c \<noteq> [] \<and> length c \<le> 4000)))"
proof -
  note run = process_image_text [OF assms]
  obtain chunks where chunks:
      "send_chunks result_text 0 = map (\<lambda>c. ReplyText c Plain) chunks"
      "concat chunks = drop 0 result_text"
      "\<forall>c\<in>set chunks. c \<noteq> [] \<and> length c \<le> 4000"
    using send_chunks_concat [of result_text 0] by blast
  have short: "length (reply_header @ result_text) \<le> 4096 \<Longrightarrow>
      send_result result_text = [EditText (reply_header @ result_text) Markdown]"
    by (simp add: send_result_def)
  have long: "4096 < length (reply_header @ result_text) \<Longrightarrow>
      send_result result_text =
        EditText msg_split_notice Markdown # map (\<lambda>c. ReplyText c Plain) chunks"
    using chunks(1) by (simp add: send_result_def Let_def)
  show ?thesis
  proof (intro conjI impI)
    assume "length (reply_header @ result_text) \<le> 4096"
    with run short show "process_image env =
        [ReplyText msg_processing Plain, Download, ReadStore, VisionPost token image_b64,
         EditText (reply_header @ result_text) Markdown]"
      by simp
  next
    assume "4096 < length (reply_header @ result_text)"
    with run long have "process_image env =
        [ReplyText msg_processing Plain, Download, ReadStore,
         VisionPost token image_b64, EditText msg_split_notice Markdown]
        @ map (\<lambda>c. ReplyText c Plain) chunks"
      by simp
    with chunks(2,3) show "\<exists>chunks.
        process_image env =
          [ReplyText msg_processing Plain, Download, ReadStore,
           VisionPost token image_b64, EditText msg_split_notice Markdown]
          @ map (\<lambda>c. ReplyText c Plain) chunks
        \<and> concat chunks = result_text
        \<and> (\<forall>c\<in>set chunks. c \<noteq> [] \<and> length c \<le> 4000)"
      by auto
  qed
qed

text \<open>A text of 10000 characters goes out as chunks of 4000, 4000 and 2000.\<close>

lemma send_result_10000:
  "send_result (replicate 10000 c) =
     [EditText msg_split_notice Markdown,
      ReplyText (replicate 4000 c) Plain,
      ReplyText (replicate 4000 c) Plain,
      ReplyText (replicate 2000 c) Plain]"
  by (simp add: send_result_def reply_header_def send_chunks.simps)

text \<open>
  Claim C5. When the vision call raises an HTTP status error, \<open>_process_image\<close> edits the
  placeholder to the message for that status: the authorization message for 401, the
  rate-limit message for 429, the server-unavailable message for every status from 500
  on, and for every other status the generic message with the status code in decimal;
  so 500 and 503 give the server-unavailable message and 418 the generic one with
  \<open>418\<close> in it. The four kinds of message differ from each other.
\<close>

theorem status_error_message:
  assumes "download_result env = Inr image_b64"
    and "call_vision_api env image_b64 = (Inl (HTTPStatusError status_code), acts)"
  shows "process_image env =
           ReplyText msg_processing Plain # Download # acts
           @ [EditText (status_error_msg status_code) Plain]
       \<and> (status_code = 401 \<longrightarrow> status_error_msg status_code = msg_auth)
       \<and> (status_code = 429 \<longrightarrow> status_error_msg status_code = msg_rate_limit)
       \<and> (500 \<le> status_code \<longrightarrow> status_error_msg status_code = msg_unavailable)
       \<and> (status_code \<noteq> 401 \<and> status_code \<noteq> 429 \<and> status_code < 500 \<longrightarrow>
            status_error_msg status_code =
              msg_generic_prefix @ py_str_int status_code @ msg_generic_suffix)
       \<and> status_error_msg 500 = msg_unavailable
       \<and> status_error_msg 503 = msg_unavailable
       \<and> status_error_msg 418 = msg_generic_prefix @ ascii ''418'' @ msg_generic_suffix
       \<and> distinct [msg_auth, msg_rate_limit, msg_unavailable,
            msg_generic_prefix @ py_str_int status_code @ msg_generic_suffix]"
proof -
  have "process_image env =
      ReplyText msg_processing Plain # Download # acts
      @ [EditText (status_error_msg status_code) Plain]"
    using assms by (simp add: process_image_def)
  moreover have "py_str_int 418 = ascii ''418''"
    by (simp add: py_str_int_def digits.simps ascii_def)
  moreover have "distinct [msg_auth, msg_rate_limit, msg_unavailable,
      msg_generic_prefix @ py_str_int status_code @ msg_generic_suffix]"
    by (simp add: msg_auth_def msg_rate_limit_def msg_unavailable_def msg_generic_prefix_def)
  ultimately show ?thesis
    by (simp add: status_error_msg_def)
qed

text \<open>
  Claim C6. For a document whose MIME type is absent or does not begin with
  \<open>image/\<close>, \<open>handle_document\<close> sends the warning and nothing else: no download and no
  request to the vision endpoint. For a document whose MIME type begins with
  \<open>image/\<close> it does what \<open>_process_image\<close> does.
\<close>

theorem handle_document_gate:
  "((case mime of None \<Rightarrow> True | Some m \<Rightarrow> \<not> startswith m (ascii ''image/'')) \<longrightarrow>
      handle_document mime env = [ReplyText msg_not_image Plain]
      \<and> Download \<notin> set (handle_document mime env)
      \<and> (\<forall>token image. VisionPost token image \<notin> set (handle_document mime env)))
   \<and> ((\<exists>m. mime = Some m \<and> startswith m (ascii ''image/'')) \<longrightarrow>
      handle_document mime env = process_image env)"
  by (auto simp: handle_document_def ascii_def split: option.splits)

text \<open>
  Claim C8 says that the message "could not process the server's reply" is given for
  failures to parse the shape of the response and for no other class of error. The
  code at four inputs: a credential file with an empty \<open>access_token\<close> and a
  credential file that is not JSON both end with that message, before any request is
  sent, since their \<open>ValueError\<close> and \<open>JSONDecodeError\<close> reach the \<open>except ValueError\<close>
  clause; a response \<open>{}\<close> ends with it as well; and a response \<open>[]\<close>, whose shape fails
  with a \<open>TypeError\<close>, ends with the message for unexpected errors.
\<close>

theorem credential_error_reported_as_parse_failure:
  "process_image \<lparr>download_result = Inr image_b64,
       creds_file = Holds (JObj [(ascii ''access_token'', JStr [])]), api_reply = r\<rparr>
     = [ReplyText msg_processing Plain, Download, ReadStore, EditText msg_parse Plain]
   \<and> process_image \<lparr>download_result = Inr image_b64,
       creds_file = Unparsable, api_reply = r\<rparr>
     = [ReplyText msg_processing Plain, Download, ReadStore, EditText msg_parse Plain]
   \<and> process_image \<lparr>download_result = Inr image_b64,
       creds_file = Holds (JObj [(ascii ''access_token'', JStr (ascii ''tok''))]),
       api_reply = ApiResponse 200 (Some (JObj []))\<rparr>
     = [ReplyText msg_processing Plain, Download, ReadStore,
        VisionPost (JStr (ascii ''tok'')) image_b64, EditText msg_parse Plain]
   \<and> process_image \<lparr>download_result = Inr image_b64,
       creds_file = Holds (JObj [(ascii ''access_token'', JStr (ascii ''tok''))]),
       api_reply = ApiResponse 200 (Some (JList []))\<rparr>
     = [ReplyText msg_processing Plain, Download, ReadStore,
        VisionPost (JStr (ascii ''tok'')) image_b64, EditText msg_unexpected Plain]
   \<and> msg_parse \<noteq> msg_unexpected"
  by (simp add: process_image_def call_vision_api_def get_qwen_token_def and_then_def
      extract_text_def msg_parse_def msg_unexpected_def)

lemma sample_token:
  "get_qwen_token (Holds (JObj [(ascii ''access_token'', JStr (ascii ''tok''))]))
     = Inr (JStr (ascii ''tok''))"
  by (simp add: get_qwen_token_def and_then_def)

lemma sample_extract:
  "extract_text (JObj [(ascii ''choices'',
       JList [JObj [(ascii ''message'', JObj [(ascii ''content'', JStr s)])]])])
     = Inr (JStr s)"
  by (simp add: extract_text_def and_then_def)

text \<open>
  The theorem at a five-character text and at a text of 10000 characters.
\<close>

theorem process_image_reply_or_chunks_witness:
  "process_image \<lparr>download_result = Inr (ascii ''aGk=''),
       creds_file = Holds (JObj [(ascii ''access_token'', JStr (ascii ''tok''))]),
       api_reply = ApiResponse 200 (Some (JObj [(ascii ''choices'',
         JList [JObj [(ascii ''message'', JObj [(ascii ''content'', JStr (ascii ''Hello''))])]])]))\<rparr>
     = [ReplyText msg_processing Plain, Download, ReadStore,
        VisionPost (JStr (ascii ''tok'')) (ascii ''aGk=''),
        EditText (reply_header @ ascii ''Hello'') Markdown]
   \<and> 4096 < length (reply_header @ replicate 10000 (65::nat))
   \<and> (\<exists>chunks.
        process_image \<lparr>download_result = Inr (ascii ''aGk=''),
          creds_file = Holds (JObj [(ascii ''access_token'', JStr (ascii ''tok''))]),
          api_reply = ApiResponse 200 (Some (JObj [(ascii ''choices'',
            JList [JObj [(ascii ''message'',
              JObj [(ascii ''content'', JStr (replicate 10000 65))])]])]))\<rparr>
        = [ReplyText msg_processing Plain, Download, ReadStore,
           VisionPost (JStr (ascii ''tok'')) (ascii ''aGk=''),
           EditText msg_split_notice Markdown]
          @ map (\<lambda>c. ReplyText c Plain) chunks
      \<and> concat chunks = replicate 10000 65
      \<and> (\<forall>c\<in>set chunks. c \<noteq> [] \<and> length c \<le> 4000))"
proof -
  have short: "length (reply_header @ ascii ''Hello'') \<le> 4096"
    by (simp add: reply_header_def ascii_def)
  have long: "4096 < length (reply_header @ replicate 10000 (65::nat))"
    by (simp add: reply_header_def)
  show ?thesis
    using short long
      process_image_reply_or_chunks [of
        "\<lparr>download_result = Inr (ascii ''aGk=''),
          creds_file = Holds (JObj [(ascii ''access_token'', JStr (ascii ''tok''))]),
          api_reply = ApiResponse 200 (Some (JObj [(ascii ''choices'',
            JList [JObj [(ascii ''message'', JObj [(ascii ''content'', JStr (ascii ''Hello''))])]])]))\<rparr>"
        "ascii ''aGk=''" "JStr (ascii ''tok'')" 200 _ "ascii ''Hello''"]
      process_image_reply_or_chunks [of
        "\<lparr>download_result = Inr (ascii ''aGk=''),
          creds_file = Holds (JObj [(ascii ''access_token'', JStr (ascii ''tok''))]),
          api_reply = ApiResponse 200 (Some (JObj [(ascii ''choices'',
            JList [JObj [(ascii ''message'',
              JObj [(ascii ''content'', JStr (replicate 10000 65))])]])]))\<rparr>"
        "ascii ''aGk=''" "JStr (ascii ''tok'')" 200 _ "replicate 10000 65"]
    by (simp add: sample_token sample_extract)
qed

text \<open>The theorem at the statuses 418 and 503.\<close>

theorem status_error_message_witness:
  "process_image \<lparr>download_result = Inr (ascii ''aGk=''),
       creds_file = Holds (JObj [(ascii ''access_token'', JStr (ascii ''tok''))]),
       api_reply = ApiResponse 418 None\<rparr>
     = [ReplyText msg_processing Plain, Download, ReadStore,
        VisionPost (JStr (ascii ''tok'')) (ascii ''aGk=''),
        EditText (msg_generic_prefix @ ascii ''418'' @ msg_generic_suffix) Plain]
   \<and> process_image \<lparr>download_result = Inr (ascii ''aGk=''),
       creds_file = Holds (JObj [(ascii ''access_token'', JStr (ascii ''tok''))]),
       api_reply = ApiResponse 503 None\<rparr>
     = [ReplyText msg_processing Plain, Download, ReadStore,
        VisionPost (JStr (ascii ''tok'')) (ascii ''aGk=''),
        EditText msg_unavailable Plain]"
proof -
  have call: "call_vision_api \<lparr>download_result = Inr (ascii ''aGk=''),
       creds_file = Holds (JObj [(ascii ''access_token'', JStr (ascii ''tok''))]),
       api_reply = ApiResponse c None\<rparr> (ascii ''aGk='')
     = (Inl (HTTPStatusError c),
        [ReadStore, VisionPost (JStr (ascii ''tok'')) (ascii ''aGk='')])"
    if "c < 200 \<or> 299 < c" for c
    using that by (simp add: call_vision_api_def sample_token)
  have c418: "(418::int) < 200 \<or> 299 < (418::int)" and c503: "(503::int) < 200 \<or> 299 < (503::int)"
    by simp_all
  show ?thesis
    using status_error_message [OF _ call [OF c418]] status_error_message [OF _ call [OF c503]]
    by simp
qed

text \<open>The theorem at a PDF, at a document without MIME type and at a PNG.\<close>

theorem handle_document_gate_witness:
  "handle_document (Some (ascii ''application/pdf''))
       \<lparr>download_result = Inr [], creds_file = Missing, api_reply = ApiRaises TimeoutException\<rparr>
     = [ReplyText msg_not_image Plain]
   \<and> handle_document None
       \<lparr>download_result = Inr [], creds_file = Missing, api_reply = ApiRaises TimeoutException\<rparr>
     = [ReplyText msg_not_image Plain]
   \<and> handle_document (Some (ascii ''image/png''))
       \<lparr>download_result = Inr [], creds_file = Missing, api_reply = ApiRaises TimeoutException\<rparr>
     = process_image
       \<lparr>download_result = Inr [], creds_file = Missing, api_reply = ApiRaises TimeoutException\<rparr>"
  using handle_document_gate [of "Some (ascii ''application/pdf'')"
      "\<lparr>download_result = Inr [], creds_file = Missing, api_reply = ApiRaises TimeoutException\<rparr>"]
    handle_document_gate [of None
      "\<lparr>download_result = Inr [], creds_file = Missing, api_reply = ApiRaises TimeoutException\<rparr>"]
    handle_document_gate [of "Some (ascii ''image/png'')"
      "\<lparr>download_result = Inr [], creds_file = Missing, api_reply = ApiRaises TimeoutException\<rparr>"]
  by (simp add: startswith_def ascii_def)


section \<open>Properties of true division\<close>

text \<open>
  What the refresher needs of the rounding: a quotient by 1000 compares with 7200 as
  its double does, a small integer is its own double, and the rounded quotient
  overflows exactly from \<open>2^1024 - 2^970\<close> on, the midpoint between the largest double
  and \<open>2^1024\<close>.
\<close>

lemma round_half_even_of_int [simp]: "round_half_even (of_int n) = n"
  by (simp add: round_half_even_def)


lemma round_half_even_le_int:
  assumes "x \<le> of_int n"
  shows "round_half_even x \<le> n"
proof (cases "\<lfloor>x\<rfloor> < n")
  case True
  have "round_half_even x \<le> \<lfloor>x\<rfloor> + 1"
    by (simp add: round_half_even_def Let_def)
  with True show ?thesis by simp
next
  case False
  moreover have "\<lfloor>x\<rfloor> \<le> n" using assms by (simp add: floor_le_iff)
  ultimately have "\<lfloor>x\<rfloor> = n" by simp
  then have "of_int n \<le> x" by (metis of_int_floor_le)
  with assms have "x = of_int n" by simp
  then show ?thesis by simp
qed

lemma pow2_nat: "0 \<le> k \<Longrightarrow> (2::rat) ^ nat k = power_int 2 k"
  by (simp add: power_int_def)

lemma ilog2_bounds:
  assumes "0 < x"
  shows "power_int 2 (ilog2 x) \<le> x" and "x < power_int 2 (ilog2 x + 1)"
proof -
  obtain p d where q: "quotient_of x = (p, d)"
    by (cases "quotient_of x") blast
  then have d: "0 < d" and x: "x = of_int p / of_int d"
    by (simp_all add: quotient_of_denom_pos quotient_of_div)
  have p: "0 < p"
    using assms d x by (simp add: zero_less_divide_iff)
  let ?bp = "bitlen p" and ?bd = "bitlen d"
  have bp: "2 ^ nat (?bp - 1) \<le> p" "p < 2 ^ nat ?bp"
    using bitlen_bounds [OF p] by simp_all
  have bd: "2 ^ nat (?bd - 1) \<le> d" "d < 2 ^ nat ?bd"
    using bitlen_bounds [OF d] by simp_all
  have bp1: "1 \<le> ?bp"
    using bp(2) p by (cases "?bp \<le> 0") simp_all
  have bd1: "1 \<le> ?bd"
    using bd(2) d by (cases "?bd \<le> 0") simp_all
  have P: "power_int 2 (?bp - 1) \<le> (of_int p :: rat)" "(of_int p :: rat) < power_int 2 ?bp"
  proof -
    have "(of_int (2 ^ nat (?bp - 1)) :: rat) \<le> of_int p"
      using bp(1) by (simp only: of_int_le_iff)
    then show "power_int 2 (?bp - 1) \<le> (of_int p :: rat)"
      using bp1 by (simp add: pow2_nat)
    have "(of_int p :: rat) < of_int (2 ^ nat ?bp)"
      using bp(2) by (simp only: of_int_less_iff)
    then show "(of_int p :: rat) < power_int 2 ?bp"
      using bp1 by (simp add: pow2_nat)
  qed
  have D: "power_int 2 (?bd - 1) \<le> (of_int d :: rat)" "(of_int d :: rat) < power_int 2 ?bd"
  proof -
    have "(of_int (2 ^ nat (?bd - 1)) :: rat) \<le> of_int d"
      using bd(1) by (simp only: of_int_le_iff)
    then show "power_int 2 (?bd - 1) \<le> (of_int d :: rat)"
      using bd1 by (simp add: pow2_nat)
    have "(of_int d :: rat) < of_int (2 ^ nat ?bd)"
      using bd(2) by (simp only: of_int_less_iff)
    then show "(of_int d :: rat) < power_int 2 ?bd"
      using bd1 by (simp add: pow2_nat)
  qed
  have dpos: "(0::rat) < of_int d" and ppos: "(0::rat) < of_int p"
    using d p by simp_all
  have up: "x < power_int 2 (?bp - ?bd + 1)"
  proof -
    have "x < power_int 2 ?bp / power_int 2 (?bd - 1)"
      unfolding x using P(2) D(1) dpos ppos
      by (intro frac_less) simp_all
    also have "\<dots> = power_int 2 (?bp - (?bd - 1))"
      by (simp add: power_int_diff)
    finally show ?thesis by (simp add: algebra_simps)
  qed
  have low: "power_int 2 (?bp - ?bd - 1) \<le> x"
  proof -
    have "power_int 2 (?bp - 1) / power_int 2 ?bd \<le> x"
      unfolding x using P(1) D(2) dpos ppos
      by (intro frac_le) simp_all
    moreover have "power_int 2 (?bp - 1) / power_int (2::rat) ?bd = power_int 2 (?bp - 1 - ?bd)"
      by (simp add: power_int_diff)
    ultimately show ?thesis by (simp add: algebra_simps)
  qed
  have il: "ilog2 x = (if power_int 2 (?bp - ?bd) \<le> x then ?bp - ?bd else ?bp - ?bd - 1)"
    by (simp add: ilog2_def q Let_def)
  show "power_int 2 (ilog2 x) \<le> x"
    using low by (simp add: il)
  show "x < power_int 2 (ilog2 x + 1)"
    using up by (auto simp: il not_le)
qed

lemma ilog2_less:
  assumes "0 < x" and "x < power_int 2 n"
  shows "ilog2 x < n"
proof -
  have less: "power_int (2::rat) (ilog2 x) < power_int 2 n"
    using ilog2_bounds(1) [OF assms(1)] assms(2) by simp
  show ?thesis
  proof (rule ccontr)
    assume "\<not> ilog2 x < n"
    then have "n \<le> ilog2 x" by simp
    then have "power_int (2::rat) n \<le> power_int 2 (ilog2 x)"
      by (intro power_int_increasing) simp_all
    with less show False by simp
  qed
qed

lemma ilog2_ge:
  assumes "power_int 2 n \<le> x"
  shows "n \<le> ilog2 x"
proof -
  have "(0::rat) < power_int 2 n" by simp
  then have pos: "0 < x" using assms by (rule less_le_trans)
  have less: "power_int (2::rat) n < power_int 2 (ilog2 x + 1)"
    using ilog2_bounds(2) [OF pos] assms by simp
  show ?thesis
  proof (rule ccontr)
    assume "\<not> n \<le> ilog2 x"
    then have "ilog2 x + 1 \<le> n" by simp
    then have "power_int (2::rat) (ilog2 x + 1) \<le> power_int 2 n"
      by (intro power_int_increasing) simp_all
    with less show False by simp
  qed
qed





lemma nearest_double_of_int:
  assumes "\<bar>n\<bar> < 2 ^ 53"
  shows "nearest_double (of_int n) = of_int n"
proof (cases "n = 0")
  case True
  then show ?thesis by (simp add: nearest_double_def)
next
  case False
  define x :: rat where "x = \<bar>of_int n\<bar>"
  have x: "x = of_int \<bar>n\<bar>" by (simp add: x_def)
  have "1 \<le> \<bar>n\<bar>" using False by simp
  then have "(of_int 1 :: rat) \<le> of_int \<bar>n\<bar>" by (simp only: of_int_le_iff)
  then have one: "power_int 2 0 \<le> x" by (simp add: x)
  then have pos: "0 < x" by simp
  have "(of_int \<bar>n\<bar> :: rat) < of_int (2 ^ 53)"
    using assms by (simp only: of_int_less_iff)
  then have "x < power_int 2 53" by (simp add: x)
  then have hi: "ilog2 x < 53" by (rule ilog2_less [OF pos])
  have lo: "0 \<le> ilog2 x" using one by (rule ilog2_ge)
  define ulp :: rat where "ulp = power_int 2 (ilog2 x - 52)"
  have ulp: "0 < ulp" by (simp add: ulp_def)
  define m where "m = nat (52 - ilog2 x)"
  have inv: "1 / ulp = 2 ^ m"
  proof -
    have "ulp * power_int 2 (52 - ilog2 x) = power_int 2 ((ilog2 x - 52) + (52 - ilog2 x))"
      unfolding ulp_def by (rule power_int_add [symmetric]) simp
    also have "\<dots> = 1" by simp
    finally have "ulp * power_int 2 (52 - ilog2 x) = 1" .
    moreover have "power_int (2::rat) (52 - ilog2 x) = 2 ^ m"
      using hi by (simp add: m_def pow2_nat)
    ultimately have "ulp * 2 ^ m = 1" by simp
    then show ?thesis using ulp by (simp add: field_simps)
  qed
  have "x / ulp = x * (1 / ulp)" by simp
  also have "\<dots> = of_int (\<bar>n\<bar> * 2 ^ m)"
    by (simp only: inv x of_int_mult of_int_power of_int_numeral)
  finally have "x / ulp = of_int (\<bar>n\<bar> * 2 ^ m)" .
  then have "of_int (round_half_even (x / ulp)) * ulp = of_int (\<bar>n\<bar> * 2 ^ m) * ulp"
    by (simp only: round_half_even_of_int)
  also have "\<dots> = x * (2 ^ m * ulp)"
    by (simp add: x)
  also have "2 ^ m * ulp = 1"
    using inv ulp by (simp add: field_simps)
  finally have "of_int (round_half_even (x / ulp)) * ulp = x" by simp
  moreover have "nearest_double (of_int n)
      = sgn (of_int n) * (of_int (round_half_even (x / ulp)) * ulp)"
    using False lo by (simp add: nearest_double_def ulp_def x_def Let_def max_def)
  ultimately show ?thesis
    by (simp add: x_def mult_sgn_abs)
qed

lemma round_half_even_ge_int:
  assumes "of_int n \<le> x"
  shows "n \<le> round_half_even x"
proof -
  have "n \<le> \<lfloor>x\<rfloor>" using assms by (simp add: le_floor_iff)
  moreover have "\<lfloor>x\<rfloor> \<le> round_half_even x"
    by (simp add: round_half_even_def Let_def)
  ultimately show ?thesis by simp
qed

lemma round_half_even_nonneg: "0 \<le> x \<Longrightarrow> 0 \<le> round_half_even x"
  using round_half_even_ge_int [of 0 x] by simp

lemma abs_nearest_double: "\<bar>nearest_double x\<bar> = nearest_double \<bar>x\<bar>"
proof (cases "x = 0")
  case True
  then show ?thesis by (simp add: nearest_double_def)
next
  case False
  define ulp :: rat where "ulp = power_int 2 (max (ilog2 \<bar>x\<bar>) (- 1022) - 52)"
  define y :: rat where "y = of_int (round_half_even (\<bar>x\<bar> / ulp)) * ulp"
  have ulp: "0 < ulp" by (simp add: ulp_def)
  have "0 \<le> \<bar>x\<bar> / ulp" using ulp by simp
  then have "0 \<le> round_half_even (\<bar>x\<bar> / ulp)" by (rule round_half_even_nonneg)
  then have nn: "0 \<le> y"
    using ulp by (simp add: y_def)
  have "nearest_double x = sgn x * y"
    using False by (simp add: nearest_double_def ulp_def y_def Let_def)
  then have "\<bar>nearest_double x\<bar> = \<bar>sgn x\<bar> * \<bar>y\<bar>"
    by (simp only: abs_mult)
  also have "\<dots> = y"
    using False nn by (simp add: abs_sgn_eq)
  finally have "\<bar>nearest_double x\<bar> = y" .
  moreover have "nearest_double \<bar>x\<bar> = y"
    using False by (simp add: nearest_double_def ulp_def y_def Let_def)
  ultimately show ?thesis by simp
qed

lemma nearest_double_overflow_pos:
  assumes "0 < x"
  shows "2 ^ 1024 \<le> nearest_double x \<longleftrightarrow> 2 ^ 1024 - 2 ^ 970 \<le> x"
proof -
  define e where "e = ilog2 x"
  define ulp :: rat where "ulp = power_int 2 (max e (- 1022) - 52)"
  have ulp: "0 < ulp" by (simp add: ulp_def)
  have nd: "nearest_double x = of_int (round_half_even (x / ulp)) * ulp"
    using assms by (simp add: nearest_double_def ulp_def e_def Let_def)
  have lo: "power_int 2 e \<le> x" and hi: "x < power_int 2 (e + 1)"
    using ilog2_bounds [OF assms] by (simp_all add: e_def)
  consider "e \<le> 1022" | "e = 1023" | "1024 \<le> e" by linarith
  then show ?thesis
  proof cases
    case 1
    define t where "t = max e (- 1022)"
    have t: "e \<le> t" "t \<le> 1022" using 1 by (simp_all add: t_def)
    have "x < power_int 2 (t + 1)"
    proof -
      have "power_int (2::rat) (e + 1) \<le> power_int 2 (t + 1)"
        using t(1) by (intro power_int_increasing) simp_all
      with hi show ?thesis by simp
    qed
    also have "power_int (2::rat) (t + 1) = power_int 2 53 * power_int 2 (t - 52)"
    proof -
      have "power_int (2::rat) (53 + (t - 52)) = power_int 2 53 * power_int 2 (t - 52)"
        by (rule power_int_add) simp
      then show ?thesis by (simp add: algebra_simps)
    qed
    finally have "x < 2 ^ 53 * ulp" by (simp add: ulp_def t_def)
    then have "x / ulp \<le> of_int (2 ^ 53)"
      using ulp by (simp add: field_simps)
    then have "round_half_even (x / ulp) \<le> 2 ^ 53"
      by (rule round_half_even_le_int)
    then have "(of_int (round_half_even (x / ulp)) :: rat) \<le> of_int (2 ^ 53)"
      by (simp only: of_int_le_iff)
    then have "nearest_double x \<le> 2 ^ 53 * ulp"
      using ulp by (simp add: nd mult_right_mono)
    also have "2 ^ 53 * ulp = power_int 2 (t + 1)"
    proof -
      have "power_int (2::rat) (53 + (t - 52)) = power_int 2 53 * power_int 2 (t - 52)"
        by (rule power_int_add) simp
      then show ?thesis by (simp add: algebra_simps ulp_def t_def)
    qed
    also have "\<dots> \<le> power_int 2 1023"
      using t(2) by (intro power_int_increasing) simp_all
    finally have small: "nearest_double x \<le> 2 ^ 1023" by simp
    have "x < power_int 2 1023"
    proof -
      have "power_int (2::rat) (e + 1) \<le> power_int 2 1023"
        using 1 by (intro power_int_increasing) simp_all
      with hi show ?thesis by simp
    qed
    then have "x < 2 ^ 1023" by simp
    with small show ?thesis by simp
  next
    case 2
    have u: "ulp = 2 ^ 971" by (simp add: ulp_def 2)
    show ?thesis
    proof
      assume "2 ^ 1024 \<le> nearest_double x"
      then have "(2 ^ 53 :: rat) \<le> of_int (round_half_even (x / 2 ^ 971))"
        by (simp add: nd u field_simps)
      then have "(of_int (2 ^ 53) :: rat) \<le> of_int (round_half_even (x / 2 ^ 971))"
        by simp
      then have big: "2 ^ 53 \<le> round_half_even (x / 2 ^ 971)"
        by (simp only: of_int_le_iff)
      have "of_int (round_half_even (x / 2 ^ 971)) - 1 / 2 \<le> x / 2 ^ 971"
        unfolding round_half_even_def Let_def
        by (auto simp: not_less) linarith+
      moreover have "(of_int (2 ^ 53) :: rat) \<le> of_int (round_half_even (x / 2 ^ 971))"
        using big by (simp only: of_int_le_iff)
      ultimately have "2 ^ 53 - 1 / 2 \<le> x / 2 ^ 971" by simp
      then show "2 ^ 1024 - 2 ^ 970 \<le> x" by (simp add: field_simps)
    next
      assume "2 ^ 1024 - 2 ^ 970 \<le> x"
      then have half: "of_int (2 ^ 53 - 1) + 1 / 2 \<le> x / 2 ^ 971"
        by (simp add: field_simps)
      define F where "F = \<lfloor>x / 2 ^ 971\<rfloor>"
      have "2 ^ 53 \<le> round_half_even (x / 2 ^ 971)"
      proof -
        have f: "2 ^ 53 - 1 \<le> F"
          unfolding F_def using half by (simp add: le_floor_iff)
        have up: "F \<le> round_half_even (x / 2 ^ 971)"
          by (simp add: round_half_even_def Let_def F_def)
        show ?thesis
        proof (cases "F = 2 ^ 53 - 1")
          case False
          with f have "2 ^ 53 \<le> F" by simp
          with up show ?thesis by simp
        next
          case True
          then have odd: "odd F" by simp
          have "1 / 2 \<le> x / 2 ^ 971 - of_int F"
            using half by (simp add: True)
          then have "round_half_even (x / 2 ^ 971) = F + 1"
            using odd unfolding round_half_even_def Let_def F_def [symmetric]
            by auto
          then show ?thesis using True by simp
        qed
      qed
      then have "(of_int (2 ^ 53) :: rat) \<le> of_int (round_half_even (x / 2 ^ 971))"
        by (simp only: of_int_le_iff)
      then show "2 ^ 1024 \<le> nearest_double x"
        by (simp add: nd u field_simps)
    qed
  next
    case 3
    have "power_int (2::rat) 1024 \<le> power_int 2 e"
      using 3 by (intro power_int_increasing) simp_all
    with lo have x: "2 ^ 1024 \<le> x" by simp
    have m: "max e (- 1022) = e" using 3 by simp
    have "power_int (2::rat) (52 + (e - 52)) = power_int 2 52 * power_int 2 (e - 52)"
      by (rule power_int_add) simp
    then have "power_int 2 e = 2 ^ 52 * ulp"
      by (simp add: ulp_def m)
    with lo have "of_int (2 ^ 52) \<le> x / ulp"
      using ulp by (simp add: field_simps)
    then have "2 ^ 52 \<le> round_half_even (x / ulp)"
      by (rule round_half_even_ge_int)
    then have "(of_int (2 ^ 52) :: rat) \<le> of_int (round_half_even (x / ulp))"
      by (simp only: of_int_le_iff)
    then have "2 ^ 52 * ulp \<le> nearest_double x"
      using ulp by (simp add: nd mult_right_mono)
    with \<open>power_int 2 e = 2 ^ 52 * ulp\<close> \<open>power_int (2::rat) 1024 \<le> power_int 2 e\<close>
    have "2 ^ 1024 \<le> nearest_double x" by simp
    with x show ?thesis by simp
  qed
qed

lemma nearest_double_overflow:
  "2 ^ 1024 \<le> \<bar>nearest_double x\<bar> \<longleftrightarrow> 2 ^ 1024 - 2 ^ 970 \<le> \<bar>x\<bar>"
proof (cases "x = 0")
  case True
  then show ?thesis by (simp add: nearest_double_def)
next
  case False
  then have "0 < \<bar>x\<bar>" by simp
  from nearest_double_overflow_pos [OF this] show ?thesis
    by (simp add: abs_nearest_double)
qed

lemma py_truediv_eq:
  "py_truediv a b =
     (if b = 0 then Inl ZeroDivisionError
      else if (2 ^ 1024 - 2 ^ 970) * \<bar>b\<bar> \<le> \<bar>a\<bar> then Inl OverflowError
      else Inr (nearest_double (of_int a / of_int b)))"
proof (cases "b = 0")
  case True
  then show ?thesis by (simp add: py_truediv_def)
next
  case False
  then have b: "(0::rat) < \<bar>of_int b\<bar>" by simp
  have "((2::rat) ^ 1024 - 2 ^ 970 \<le> \<bar>of_int a / of_int b\<bar>)
      \<longleftrightarrow> (2 ^ 1024 - 2 ^ 970) * \<bar>of_int b\<bar> \<le> (\<bar>of_int a\<bar> :: rat)"
    using b by (simp add: abs_divide pos_le_divide_eq)
  also have "\<dots> \<longleftrightarrow> (of_int ((2 ^ 1024 - 2 ^ 970) * \<bar>b\<bar>) :: rat) \<le> of_int \<bar>a\<bar>"
    by simp
  also have "\<dots> \<longleftrightarrow> (2 ^ 1024 - 2 ^ 970) * \<bar>b\<bar> \<le> \<bar>a\<bar>"
    by (simp only: of_int_le_iff)
  finally have "(2 ^ 1024 \<le> \<bar>nearest_double (of_int a / of_int b)\<bar>)
      \<longleftrightarrow> (2 ^ 1024 - 2 ^ 970) * \<bar>b\<bar> \<le> \<bar>a\<bar>"
    by (simp only: nearest_double_overflow)
  then show ?thesis
    using False by (simp only: py_truediv_def Let_def if_False)
qed

lemma nearest_double_numeral:
  "(numeral k :: int) < 2 ^ 53 \<Longrightarrow> nearest_double (numeral k) = numeral k"
  "(numeral k :: int) < 2 ^ 53 \<Longrightarrow> nearest_double (- numeral k) = - numeral k"
  "nearest_double 0 = 0" "nearest_double 1 = 1" "nearest_double (- 1) = - 1"
  using nearest_double_of_int [of "numeral k"] nearest_double_of_int [of "- numeral k"]
    nearest_double_of_int [of 0] nearest_double_of_int [of 1] nearest_double_of_int [of "- 1"]
  by simp_all


section \<open>Properties of the refresher\<close>

lemma emit_simps [simp]:
  "store (emit e w) = store w" "perms (emit e w) = perms w" "trace (emit e w) = trace w @ [e]"
  by (simp_all add: emit_def)

lemma log_simps [simp]:
  "store (log m w) = store w" "perms (log m w) = perms w" "trace (log m w) = trace w @ [Log m]"
  by (simp_all add: log_def)

lemma emitted_append: "trace w' = trace w @ evs \<Longrightarrow> emitted w w' = evs"
  by (simp add: emitted_def)

lemma load_creds_run:
  assumes "load_creds w = (r, w')"
  shows "(\<exists>creds. r = Ok creds \<and> store w = Holds creds \<and> w' = w)
       \<or> (exit_status r = 1 \<and> store w' = store w \<and> perms w' = perms w
           \<and> (\<exists>evs. trace w' = trace w @ evs \<and> set evs \<subseteq> range Log))"
  using assms by (auto simp: load_creds_def split: store_file.splits)

lemma token_needs_refresh_run:
  assumes "token_needs_refresh env creds w = (r, w')"
  shows "store w' = store w \<and> perms w' = perms w
       \<and> (\<exists>evs. trace w' = trace w @ evs \<and> set evs \<subseteq> range Log)
       \<and> (r = Ok True \<or> r = Ok False \<or> (\<exists>e. r = Raise e))"
  using assms by (auto simp: token_needs_refresh_def split: sum.splits if_splits)

lemma refresh_token_run:
  assumes "refresh_token env rt w = (r, w')"
  shows "store w' = store w \<and> perms w' = perms w
       \<and> (\<exists>evs. trace w' = trace w @ HttpPost rt # evs
              \<and> set evs \<subseteq> range Log \<union> range JsonLoads)
       \<and> ((\<exists>body ct raw. r = Ok body \<and> http_reply env = Response ct raw
              \<and> \<not> py_in (ascii ''text/html'') ct \<and> \<not> strip_is_empty raw
              \<and> json_loads env raw = Some body
              \<and> py_get body (ascii ''status'') JNull = Inr (JStr (ascii ''success''))
              \<and> trace w' = trace w @ [HttpPost rt, JsonLoads raw])
           \<or> ((\<forall>body. r \<noteq> Ok body) \<and> exit_status r = 1))"
  using assms
  by (auto simp: refresh_token_def Let_def
      split: http_outcome.splits option.splits sum.splits if_splits)


lemma save_creds_simps [simp]:
  "store (save_creds c w) = Holds c" "perms (save_creds c w) = mode_0o600"
  "trace (save_creds c w) = trace w @ [WriteStore c, Chmod mode_0o600, Log LogFileUpdated]"
  by (simp_all add: save_creds_def)

lemma refresh_and_save_run:
  assumes "refresh_and_save env creds w = (r, w')"
  shows "(exit_status r = 1 \<and> store w' = store w \<and> perms w' = perms w
          \<and> (\<exists>evs. trace w' = trace w @ evs
                \<and> set evs \<subseteq> range Log \<union> range JsonLoads \<union> range HttpPost))
       \<or> (\<exists>rt ct raw body new_creds rest.
            py_get creds (ascii ''refresh_token'') JNull = Inr rt \<and> truthy rt
          \<and> http_reply env = Response ct raw
          \<and> \<not> py_in (ascii ''text/html'') ct \<and> \<not> strip_is_empty raw
          \<and> json_loads env raw = Some body
          \<and> py_get body (ascii ''status'') JNull = Inr (JStr (ascii ''success''))
          \<and> build_new_creds (int (now_build env)) body = Inr new_creds
          \<and> store w' = Holds new_creds \<and> perms w' = mode_0o600
          \<and> trace w' = trace w @ [Log LogSendingRequest, HttpPost rt, JsonLoads raw,
               WriteStore new_creds, Chmod mode_0o600, Log LogFileUpdated] @ rest
          \<and> set rest \<subseteq> range Log)"
proof (cases "py_get creds (ascii ''refresh_token'') JNull")
  case (Inl e)
  with assms show ?thesis by (auto simp: refresh_and_save_def)
next
  case (Inr rt)
  show ?thesis
  proof (cases "truthy rt")
    case False
    with Inr assms show ?thesis by (auto simp: refresh_and_save_def)
  next
    case True
    obtain r1 w1 where rt: "refresh_token env rt (log LogSendingRequest w) = (r1, w1)"
      by (cases "refresh_token env rt (log LogSendingRequest w)") blast
    note run = refresh_token_run [OF rt]
    show ?thesis
    proof (cases "\<exists>body. r1 = Ok body")
      case False
      then have "exit_status r = exit_status r1" "w' = w1"
        using assms Inr True rt by (auto simp: refresh_and_save_def split: res.splits)
      moreover have "exit_status r1 = 1" using run False by auto
      moreover obtain evs where "trace w1 = trace w @ Log LogSendingRequest # HttpPost rt # evs"
          "set evs \<subseteq> range Log \<union> range JsonLoads"
        using run by auto
      ultimately show ?thesis using run by auto
    next
      case True
      then obtain body where body: "r1 = Ok body" by blast
      with run obtain ct raw where ok: "http_reply env = Response ct raw"
          "\<not> py_in (ascii ''text/html'') ct" "\<not> strip_is_empty raw"
          "json_loads env raw = Some body"
          "py_get body (ascii ''status'') JNull = Inr (JStr (ascii ''success''))"
          "trace w1 = trace w @ [Log LogSendingRequest, HttpPost rt, JsonLoads raw]"
        by auto
      have same: "store w1 = store w" "perms w1 = perms w" using run by auto
      show ?thesis
      proof (cases "build_new_creds (int (now_build env)) body")
        case (Inl e)
        then have "r = Raise e" "w' = w1"
          using assms Inr \<open>truthy rt\<close> rt body by (auto simp: refresh_and_save_def)
        then show ?thesis using ok(6) same by auto
      next
        case new: (Inr new_creds)
        have "\<exists>rest. trace w' = trace (save_creds new_creds w1) @ rest \<and> set rest \<subseteq> range Log
            \<and> store w' = Holds new_creds \<and> perms w' = mode_0o600"
          using assms Inr \<open>truthy rt\<close> rt body new
          by (auto simp: refresh_and_save_def split: sum.splits)
        then show ?thesis
          using Inr \<open>truthy rt\<close> ok new by auto
      qed
    qed
  qed
qed

lemma main_run:
  assumes "main env w = (r, w')"
  shows "(store w' = store w \<and> perms w' = perms w
          \<and> (\<exists>evs. trace w' = trace w @ evs
                \<and> set evs \<subseteq> range Log \<union> range JsonLoads \<union> range HttpPost
                \<and> ((\<exists>rt. HttpPost rt \<in> set evs) \<longrightarrow> exit_status r = 1)))
       \<or> (\<exists>rt ct raw body new_creds before rest.
            http_reply env = Response ct raw
          \<and> \<not> py_in (ascii ''text/html'') ct \<and> \<not> strip_is_empty raw
          \<and> json_loads env raw = Some body
          \<and> py_get body (ascii ''status'') JNull = Inr (JStr (ascii ''success''))
          \<and> build_new_creds (int (now_build env)) body = Inr new_creds
          \<and> store w' = Holds new_creds \<and> perms w' = mode_0o600
          \<and> trace w' = trace w @ before @ [Log LogSendingRequest, HttpPost rt, JsonLoads raw,
               WriteStore new_creds, Chmod mode_0o600, Log LogFileUpdated] @ rest
          \<and> set before \<subseteq> range Log \<and> set rest \<subseteq> range Log)"
proof -
  obtain r1 w1 where l: "load_creds (log LogStart w) = (r1, w1)"
    by (cases "load_creds (log LogStart w)") blast
  note lrun = load_creds_run [OF l]
  show ?thesis
  proof (cases "\<exists>creds. r1 = Ok creds")
    case False
    then have "exit_status r = exit_status r1" "w' = w1"
      using assms l by (auto simp: main_def split: res.splits)
    then show ?thesis using lrun False by auto
  next
    case True
    then obtain creds where creds: "r1 = Ok creds" "w1 = log LogStart w"
      using lrun by auto
    obtain r2 w2 where t: "token_needs_refresh env creds w1 = (r2, w2)"
      by (cases "token_needs_refresh env creds w1") blast
    note trun = token_needs_refresh_run [OF t]
    then obtain evs2 where evs2: "trace w2 = trace w @ Log LogStart # evs2" "set evs2 \<subseteq> range Log"
      using creds by auto
    have same2: "store w2 = store w" "perms w2 = perms w"
      using trun creds by auto
    show ?thesis
    proof (cases "r2 = Ok True")
      case False
      then have "(r = Ok () \<or> (\<exists>e. r = Raise e))" "w' = w2"
        using assms l creds t trun by (auto simp: main_def)
      then show ?thesis using evs2 same2 by auto
    next
      case True
      then have rs: "refresh_and_save env creds w2 = (r, w')"
        using assms l creds t by (simp add: main_def)
      from refresh_and_save_run [OF rs] show ?thesis
      proof (elim disjE exE conjE)
        fix evs
        assume "exit_status r = 1" "store w' = store w2" "perms w' = perms w2"
          "trace w' = trace w2 @ evs" "set evs \<subseteq> range Log \<union> range JsonLoads \<union> range HttpPost"
        then show ?thesis using evs2 same2 by auto
      next
        fix rt ct raw body new_creds rest
        assume a: "http_reply env = Response ct raw"
          "\<not> py_in (ascii ''text/html'') ct" "\<not> strip_is_empty raw"
          "json_loads env raw = Some body"
          "py_get body (ascii ''status'') JNull = Inr (JStr (ascii ''success''))"
          "build_new_creds (int (now_build env)) body = Inr new_creds"
          "store w' = Holds new_creds" "perms w' = mode_0o600"
          "trace w' = trace w2 @ [Log LogSendingRequest, HttpPost rt, JsonLoads raw,
               WriteStore new_creds, Chmod mode_0o600, Log LogFileUpdated] @ rest"
          "set rest \<subseteq> range Log"
        have "trace w' = trace w @ (Log LogStart # evs2) @ [Log LogSendingRequest, HttpPost rt,
            JsonLoads raw, WriteStore new_creds, Chmod mode_0o600, Log LogFileUpdated] @ rest"
          using a(9) evs2(1) by simp
        moreover have "set (Log LogStart # evs2) \<subseteq> range Log"
          using evs2(2) by auto
        ultimately show ?thesis using a(1-8,10) by blast
      qed
    qed
  qed
qed

lemma log_only_no_others:
  assumes "set evs \<subseteq> range Log"
  shows "WriteStore v \<notin> set evs" "Chmod m \<notin> set evs" "HttpPost rt \<notin> set evs"
    "JsonLoads x \<notin> set evs"
  using assms by auto

text \<open>
  Claim C1. In every run of the refresher, when the answer to the refresh request is
  a failure (an HTTP error status, an HTML content type, a blank body, a body that is
  not JSON, or a JSON body whose \<open>status\<close> is not \<open>"success"\<close>), the credential file
  and its mode are left as they were, nothing is written, and a run that sent the
  request exits with status 1. Whenever the file is written, the response had passed
  every check of \<open>refresh_token\<close>, and the write comes after the request and the
  parse.
\<close>

theorem failed_refresh_keeps_store:
  assumes "main env w = (r, w')"
  shows "(((\<exists>code error_body. http_reply env = HTTPError code error_body)
         \<or> (\<exists>ct raw. http_reply env = Response ct raw
              \<and> (py_in (ascii ''text/html'') ct \<or> strip_is_empty raw
                  \<or> json_loads env raw = None
                  \<or> (\<exists>body. json_loads env raw = Some body
                        \<and> py_get body (ascii ''status'') JNull
                            \<noteq> Inr (JStr (ascii ''success''))))))
        \<longrightarrow> store w' = store w \<and> perms w' = perms w
          \<and> (\<forall>v. WriteStore v \<notin> set (emitted w w'))
          \<and> (\<forall>m. Chmod m \<notin> set (emitted w w'))
          \<and> ((\<exists>rt. HttpPost rt \<in> set (emitted w w')) \<longrightarrow> exit_status r = 1))
       \<and> (\<forall>v. WriteStore v \<in> set (emitted w w')
        \<longrightarrow> (\<exists>ct raw body. http_reply env = Response ct raw
              \<and> \<not> py_in (ascii ''text/html'') ct \<and> \<not> strip_is_empty raw
              \<and> json_loads env raw = Some body
              \<and> py_get body (ascii ''status'') JNull = Inr (JStr (ascii ''success''))
              \<and> (\<exists>rt before rest. emitted w w'
                    = before @ [HttpPost rt, JsonLoads raw, WriteStore v] @ rest)))"
  using main_run [OF assms]
proof (elim disjE exE conjE)
  fix evs
  assume q: "store w' = store w" "perms w' = perms w" "trace w' = trace w @ evs"
    "set evs \<subseteq> range Log \<union> range JsonLoads \<union> range HttpPost"
    "(\<exists>rt. HttpPost rt \<in> set evs) \<longrightarrow> exit_status r = 1"
  have "emitted w w' = evs" using q(3) by (rule emitted_append)
  moreover have "WriteStore v \<notin> set evs" "Chmod m \<notin> set evs" for v m
    using q(4) by auto
  ultimately show ?thesis using q(1,2,5) by simp
next
  fix rt ct raw body new_creds before rest
  assume a: "http_reply env = Response ct raw"
    "\<not> py_in (ascii ''text/html'') ct" "\<not> strip_is_empty raw"
    "json_loads env raw = Some body"
    "py_get body (ascii ''status'') JNull = Inr (JStr (ascii ''success''))"
    "trace w' = trace w @ before @ [Log LogSendingRequest, HttpPost rt, JsonLoads raw,
         WriteStore new_creds, Chmod mode_0o600, Log LogFileUpdated] @ rest"
    "set before \<subseteq> range Log" "set rest \<subseteq> range Log"
  have em: "emitted w w' = before @ [Log LogSendingRequest, HttpPost rt, JsonLoads raw,
         WriteStore new_creds, Chmod mode_0o600, Log LogFileUpdated] @ rest"
    using a(6) by (rule emitted_append)
  have only: "v = new_creds" if "WriteStore v \<in> set (emitted w w')" for v
    using that log_only_no_others(1) [OF a(7)] log_only_no_others(1) [OF a(8)]
    by (auto simp: em)
  have shape: "emitted w w' = (before @ [Log LogSendingRequest])
      @ [HttpPost rt, JsonLoads raw, WriteStore new_creds]
      @ (Chmod mode_0o600 # Log LogFileUpdated # rest)"
    by (simp add: em)
  have second: "\<exists>rt before rest. emitted w w'
      = before @ [HttpPost rt, JsonLoads raw, WriteStore v] @ rest"
    if "WriteStore v \<in> set (emitted w w')" for v
    using only [OF that] shape by blast
  show ?thesis
  proof (intro conjI impI allI)
    fix v assume "WriteStore v \<in> set (emitted w w')"
    from second [OF this] a(1-5)
    show "\<exists>ct raw body. http_reply env = Response ct raw
        \<and> \<not> py_in (ascii ''text/html'') ct \<and> \<not> strip_is_empty raw
        \<and> json_loads env raw = Some body
        \<and> py_get body (ascii ''status'') JNull = Inr (JStr (ascii ''success''))
        \<and> (\<exists>rt before rest. emitted w w'
              = before @ [HttpPost rt, JsonLoads raw, WriteStore v] @ rest)"
      by blast
  qed (use a(1-5) in auto)
qed








lemmas refresher_defs =
  main_def load_creds_def token_needs_refresh_def refresh_and_save_def refresh_token_def
  build_new_creds_def save_creds_def and_then_def py_truediv_eq nearest_double_numeral
  REFRESH_THRESHOLD_SEC_def log_def emit_def Let_def

lemmas example_defs =
  example_env_def example_world_def example_creds_def example_loads_def example_body_def

lemma length_ascii [simp]: "length (ascii s) = length s"
  by (simp add: ascii_def)




lemma example_fresh_run:
  "main (example_env reply) (example_world (JInt 1700010000000))
     = (Ok (), (example_world (JInt 1700010000000))
          \<lparr>trace := [Log LogStart, Log (LogStillValid 10000)]\<rparr>)"
  by (simp add: refresher_defs example_defs)

lemma example_overflow_run:
  "main (example_env reply) (example_world (JInt (2 ^ 1034)))
     = (Raise OverflowError, (example_world (JInt (2 ^ 1034)))\<lparr>trace := [Log LogStart]\<rparr>)"
  by (simp add: refresher_defs example_defs)

lemma example_401_run:
  "main (example_env (HTTPError 401 (ascii ''denied''))) (example_world (JInt 1699999999000))
     = (SysExit 1, (example_world (JInt 1699999999000))
          \<lparr>trace := [Log LogStart, Log (LogExpiresSoon (- 1)), Log LogSendingRequest,
             HttpPost (JStr (ascii ''r0'')), Log (LogHttpError 401 (ascii ''denied'')),
             Log LogReauthorize]\<rparr>)"
  by (simp add: refresher_defs example_defs)



lemma example_missing_expiry_run:
  "main (example_env URLError) (example_world JNull)
     = (SysExit 1, (example_world JNull)
          \<lparr>trace := [Log LogStart, Log LogExpiryMissing, Log LogSendingRequest,
             HttpPost (JStr (ascii ''r0'')), Log LogNetworkError]\<rparr>)"
  by (simp add: refresher_defs example_defs)





text \<open>The theorem at a run whose request is answered with HTTP 401.\<close>

theorem failed_refresh_keeps_store_witness:
  "exit_status (fst (main (example_env (HTTPError 401 (ascii ''denied'')))
       (example_world (JInt 1699999999000)))) = 1
   \<and> store (snd (main (example_env (HTTPError 401 (ascii ''denied'')))
       (example_world (JInt 1699999999000)))) = store (example_world (JInt 1699999999000))
   \<and> perms (snd (main (example_env (HTTPError 401 (ascii ''denied'')))
       (example_world (JInt 1699999999000)))) = perms (example_world (JInt 1699999999000))
   \<and> (\<forall>v. WriteStore v \<notin> set (emitted (example_world (JInt 1699999999000))
         (snd (main (example_env (HTTPError 401 (ascii ''denied'')))
            (example_world (JInt 1699999999000))))))"
proof -
  note run = example_401_run
  have failing: "\<exists>code error_body.
      http_reply (example_env (HTTPError 401 (ascii ''denied''))) = HTTPError code error_body"
    by (simp add: example_env_def)
  have sent: "\<exists>rt. HttpPost rt \<in> set (emitted (example_world (JInt 1699999999000))
      ((example_world (JInt 1699999999000))
          \<lparr>trace := [Log LogStart, Log (LogExpiresSoon (- 1)), Log LogSendingRequest,
             HttpPost (JStr (ascii ''r0'')), Log (LogHttpError 401 (ascii ''denied'')),
             Log LogReauthorize]\<rparr>))"
    by (simp add: emitted_def example_world_def)
  show ?thesis
    using failed_refresh_keeps_store [OF run] failing sent
    unfolding run fst_conv snd_conv by blast
qed















end
